theory Spec2Isabelle
  imports Main "HOL-Library.Sublist"
begin

section \<open>The PDF text extraction script\<close>

text \<open>
  The program is the module body of \<^verbatim>\<open>extract_pdf_text.py\<close>:
  \<^verbatim>\<open>
  pkg = 'pypdf'
  try:
      importlib.import_module(pkg)
  except ImportError:
      subprocess.check_call([sys.executable, '-m', 'pip', 'install', pkg])
  from pypdf import PdfReader
  reader = PdfReader('ro.pdf')
  with open('ro_extracted.txt', 'w', encoding='utf-8') as f:
      for page in reader.pages:
          text = page.extract_text() or ''
          f.write(text)
          f.write('\n')
  print('OK')
  \<close>
  It is embedded as a function from the state of the world before the run to the outcome
  of the run and the state of the world after it. Every call that can raise is a branch
  of the model; an exception that nothing catches ends the run.
\<close>

subsection \<open>Values, pages and exceptions\<close>

text \<open>
  A string is the sequence of its characters as they reach the file (the file is opened
  with \<^verbatim>\<open>encoding='utf-8'\<close>; the line separator of the platform is taken to be the
  newline character itself, so that \<^verbatim>\<open>'\n'\<close> is written as it is).
\<close>

definition newline :: char where
  "newline = CHR 0x0A"

text \<open>What \<^verbatim>\<open>page.extract_text()\<close> returns: \<^verbatim>\<open>None\<close> or a string.\<close>

datatype pyval = PyNone | PyStr string

text \<open>The call either raises or returns a value. A page is known by what the call does.\<close>

datatype extract_result = Raises | Returns pyval

datatype page = Page (extract_text: extract_result)

text \<open>
  The exceptions that can leave the script, named by the statement they come from:
  \<^verbatim>\<open>check_call\<close> (line 6), the import of line 7, \<^verbatim>\<open>PdfReader('ro.pdf')\<close>
  (line 8: a missing, unreadable or invalid file), \<^verbatim>\<open>open(..., 'w')\<close> (line 9),
  \<^verbatim>\<open>page.extract_text()\<close> (line 11) and \<^verbatim>\<open>f.write\<close> (lines 12 and 13).
\<close>

datatype exn =
    CalledProcessError
  | ImportError
  | ReaderError
  | OSError
  | ExtractError
  | WriteError

subsection \<open>The world\<close>

text \<open>The calls made on files, in the order in which they are made.\<close>

datatype io_call = Open string | Write string string | Close string

text \<open>
  \<open>files\<close> maps a path to the content of the file there, \<open>handles\<close> lists the paths
  that are open for writing, \<open>stdout\<close> is what has been printed, \<open>log\<close> records the
  calls made on files.
\<close>

record world =
  files :: "string \<rightharpoonup> string"
  handles :: "string list"
  stdout :: string
  log :: "io_call list"

text \<open>
  What the script does not decide: whether the package can be imported, whether the
  installation succeeds, what the library makes of the bytes of a file, whether a path
  can be opened for writing, and whether a write succeeds (given the content of the file
  so far and the data to add).
\<close>

record env =
  importable :: bool
  pip_ok :: bool
  importable_after :: bool
  parse_pdf :: "string \<Rightarrow> page list option"
  open_w_ok :: "string \<Rightarrow> bool"
  write_ok :: "string \<Rightarrow> string \<Rightarrow> bool"

subsection \<open>The statements of the script\<close>

definition input_path :: string where
  "input_path = ''ro.pdf''"

definition output_path :: string where
  "output_path = ''ro_extracted.txt''"

text \<open>
  Lines 3 to 7: the import is tried; only if it fails is the package installed, and a
  failed installation raises. The import of line 7 can still fail after an installation.
\<close>

definition ensure_pkg :: "env \<Rightarrow> exn + unit" where
  "ensure_pkg e =
     (if importable e then Inr ()
      else if \<not> pip_ok e then Inl CalledProcessError
      else if importable_after e then Inr ()
      else Inl ImportError)"

text \<open>
  Line 8: a path with no file raises, as does a file the library cannot read. Once the
  constructor has returned, \<^verbatim>\<open>reader.pages\<close> is the finite list of the pages, in the
  order of the file; whatever the library raises later, while the pages are visited, is
  the \<open>Raises\<close> of a page.
\<close>

definition PdfReader :: "env \<Rightarrow> string \<Rightarrow> world \<Rightarrow> page list option" where
  "PdfReader e p w = (case files w p of None \<Rightarrow> None | Some bytes \<Rightarrow> parse_pdf e bytes)"

text \<open>Line 9: mode \<^verbatim>\<open>'w'\<close> creates the file or truncates it; a failure changes nothing.\<close>

definition open_w :: "env \<Rightarrow> string \<Rightarrow> world \<Rightarrow> exn + world" where
  "open_w e p w =
     (if open_w_ok e p
      then Inr (w\<lparr>files := (files w)(p \<mapsto> []), handles := p # handles w,
                  log := log w @ [Open p]\<rparr>)
      else Inl OSError)"

text \<open>Leaving the \<^verbatim>\<open>with\<close> block closes the handle.\<close>

definition f_close :: "string \<Rightarrow> world \<Rightarrow> world" where
  "f_close p w = w\<lparr>handles := remove1 p (handles w), log := log w @ [Close p]\<rparr>"

text \<open>Line 11: \<^verbatim>\<open>v or ''\<close> is \<^verbatim>\<open>v\<close> when \<^verbatim>\<open>v\<close> is true, and \<^verbatim>\<open>''\<close> otherwise.\<close>

fun truthy :: "pyval \<Rightarrow> bool" where
  "truthy PyNone = False"
| "truthy (PyStr s) = (s \<noteq> [])"

fun or_empty :: "pyval \<Rightarrow> string" where
  "or_empty PyNone = []"
| "or_empty (PyStr s) = (if truthy (PyStr s) then s else [])"

text \<open>
  Lines 12 and 13: \<^verbatim>\<open>f.write(s)\<close> adds \<open>s\<close> at the end of the file, or raises. A
  write that raises is taken to add nothing. The content of a file is what it holds once
  the handle is closed, so that the buffer of the handle is not a part of the world. The
  handle is that of a file that exists, \<^verbatim>\<open>open\<close> having created it: the first branch
  is there for the function to be total, and no run takes it.
\<close>

definition f_write :: "env \<Rightarrow> string \<Rightarrow> string \<Rightarrow> world \<Rightarrow> exn + world" where
  "f_write e p s w =
     (case files w p of
        None \<Rightarrow> Inl WriteError
      | Some c \<Rightarrow>
          if write_ok e c s
          then Inr (w\<lparr>files := (files w)(p \<mapsto> c @ s), log := log w @ [Write p s]\<rparr>)
          else Inl WriteError)"

text \<open>
  Lines 10 to 13: the loop over \<^verbatim>\<open>reader.pages\<close>. It returns the exception that ended
  it, if any, and the world as the loop left it.
\<close>

fun page_loop :: "env \<Rightarrow> string \<Rightarrow> page list \<Rightarrow> world \<Rightarrow> exn option \<times> world" where
  "page_loop e p [] w = (None, w)"
| "page_loop e p (pg # pgs) w =
     (case extract_text pg of
        Raises \<Rightarrow> (Some ExtractError, w)
      | Returns v \<Rightarrow>
          (case f_write e p (or_empty v) w of
             Inl x \<Rightarrow> (Some x, w)
           | Inr w1 \<Rightarrow>
               (case f_write e p [newline] w1 of
                  Inl x \<Rightarrow> (Some x, w1)
                | Inr w2 \<Rightarrow> page_loop e p pgs w2)))"

text \<open>Lines 9 to 13: the handle is closed however the block is left.\<close>

definition with_open :: "env \<Rightarrow> string \<Rightarrow> page list \<Rightarrow> world \<Rightarrow> exn option \<times> world" where
  "with_open e p pgs w =
     (case open_w e p w of
        Inl x \<Rightarrow> (Some x, w)
      | Inr w1 \<Rightarrow> (case page_loop e p pgs w1 of (r, w2) \<Rightarrow> (r, f_close p w2)))"

text \<open>
  Line 14: \<^verbatim>\<open>print\<close> adds its argument and a newline to the standard output, and is
  taken not to raise.
\<close>

definition print_line :: "string \<Rightarrow> world \<Rightarrow> world" where
  "print_line s w = w\<lparr>stdout := stdout w @ s @ [newline]\<rparr>"

text \<open>The whole script.\<close>

definition script :: "env \<Rightarrow> world \<Rightarrow> exn option \<times> world" where
  "script e w =
     (case ensure_pkg e of
        Inl x \<Rightarrow> (Some x, w)
      | Inr _ \<Rightarrow>
          (case PdfReader e input_path w of
             None \<Rightarrow> (Some ReaderError, w)
           | Some pgs \<Rightarrow>
               (case with_open e output_path pgs w of
                  (Some x, w1) \<Rightarrow> (Some x, w1)
                | (None, w1) \<Rightarrow> (None, print_line ''OK'' w1))))"

text \<open>
  The exit status of the interpreter: 0 when the script ends, 1 when an exception
  leaves it.
\<close>

definition exit_status :: "exn option \<Rightarrow> nat" where
  "exit_status r = (case r of None \<Rightarrow> 0 | Some _ \<Rightarrow> 1)"

subsection \<open>Vocabulary of the properties\<close>

text \<open>A document whose pages all return: page \<open>i\<close> returns \<open>vs ! i\<close>.\<close>

definition returning :: "pyval list \<Rightarrow> page list" where
  "returning vs = map (\<lambda>v. Page (Returns v)) vs"

text \<open>The line of a page: its text, then a newline. The lines of a document, in order.\<close>

definition rendered :: "pyval list \<Rightarrow> string" where
  "rendered vs = concat (map (\<lambda>v. or_empty v @ [newline]) vs)"

text \<open>The two writes of a page, and those of a document.\<close>

definition page_writes :: "string \<Rightarrow> pyval list \<Rightarrow> io_call list" where
  "page_writes p vs = concat (map (\<lambda>v. [Write p (or_empty v), Write p [newline]]) vs)"

text \<open>Every write of the run succeeds, when the file holds \<open>c\<close> before the first.\<close>

fun writes_ok :: "env \<Rightarrow> string \<Rightarrow> pyval list \<Rightarrow> bool" where
  "writes_ok e c [] = True"
| "writes_ok e c (v # vs) =
     (write_ok e c (or_empty v) \<and> write_ok e (c @ or_empty v) [newline]
      \<and> writes_ok e (c @ or_empty v @ [newline]) vs)"

text \<open>
  Reading the output back. \<open>split_nl\<close> cuts a string at every newline character, as
  \<^verbatim>\<open>s.split('\n')\<close> does: a string with \<open>k\<close> newline characters gives \<open>k + 1\<close>
  pieces. \<open>read_lines\<close> gives the lines of a file: the pieces, without the empty piece
  after a final newline.
\<close>

fun split_nl :: "string \<Rightarrow> string list" where
  "split_nl [] = [[]]"
| "split_nl (c # cs) =
     (if c = newline then [] # split_nl cs
      else (case split_nl cs of [] \<Rightarrow> [[c]] | l # ls \<Rightarrow> (c # l) # ls))"

definition read_lines :: "string \<Rightarrow> string list" where
  "read_lines s = (let ls = split_nl s in if last ls = [] then butlast ls else ls)"

subsection \<open>Concrete runs\<close>

text \<open>
  An environment in which the package is there, the library reads any file as the pages
  \<open>pgs\<close>, and every open and write succeeds.
\<close>

definition doc_env :: "page list \<Rightarrow> env" where
  "doc_env pgs =
     \<lparr>importable = True, pip_ok = True, importable_after = True,
      parse_pdf = (\<lambda>_. Some pgs), open_w_ok = (\<lambda>_. True), write_ok = (\<lambda>_ _. True)\<rparr>"


text \<open>The same as \<open>doc_env\<close>, with a library that reads no file.\<close>

definition bad_pdf_env :: env where
  "bad_pdf_env = (doc_env [])\<lparr>parse_pdf := (\<lambda>_. None)\<rparr>"

text \<open>
  A world with the input file and an output file left by an earlier run; the same with
  another output file; a world with neither file.
\<close>

definition start :: world where
  "start =
     \<lparr>files = [input_path \<mapsto> ''%PDF-1.4'', output_path \<mapsto> ''stale''],
      handles = [], stdout = [], log = []\<rparr>"

definition start_other :: world where
  "start_other = start\<lparr>files := (files start)(output_path \<mapsto> ''other'')\<rparr>"

definition empty_dir :: world where
  "empty_dir = \<lparr>files = Map.empty, handles = [], stdout = [], log = []\<rparr>"

text \<open>The document of the specification's example, and two documents with one output.\<close>

definition hello_world :: "pyval list" where
  "hello_world = [PyStr ''Hello'', PyStr [], PyStr ''World'']"

definition two_lines_one_page :: "pyval list" where
  "two_lines_one_page = [PyStr (''a'' @ [newline] @ ''b'')]"

definition two_pages :: "pyval list" where
  "two_pages = [PyStr ''a'', PyStr ''b'']"

section \<open>Properties of the statements\<close>

lemma paths_distinct: "input_path \<noteq> output_path"
  by (simp add: input_path_def output_path_def)

lemma rendered_Nil: "rendered [] = []"
  by (simp add: rendered_def)

lemma rendered_Cons: "rendered (v # vs) = or_empty v @ newline # rendered vs"
  by (simp add: rendered_def)

lemma rendered_append: "rendered (us @ vs) = rendered us @ rendered vs"
  by (simp add: rendered_def)

lemma page_writes_Nil: "page_writes p [] = []"
  by (simp add: page_writes_def)

lemma page_writes_Cons:
  "page_writes p (v # vs) = Write p (or_empty v) # Write p [newline] # page_writes p vs"
  by (simp add: page_writes_def)

lemma length_page_writes: "length (page_writes p vs) = 2 * length vs"
  by (induction vs) (simp_all add: page_writes_Nil page_writes_Cons)

lemma page_loop_returning:
  "files w p = Some c \<Longrightarrow> writes_ok e c vs \<Longrightarrow>
   page_loop e p (returning vs) w =
     (None, w\<lparr>files := (files w)(p \<mapsto> c @ rendered vs), log := log w @ page_writes p vs\<rparr>)"
proof (induction vs arbitrary: w c)
  case Nil
  then show ?case
    by (simp add: returning_def rendered_Nil page_writes_Nil fun_upd_idem)
next
  case (Cons v vs)
  let ?w2 = "w\<lparr>files := (files w)(p \<mapsto> c @ or_empty v @ [newline]),
                log := log w @ [Write p (or_empty v), Write p [newline]]\<rparr>"
  from Cons.prems have step: "page_loop e p (returning (v # vs)) w = page_loop e p (returning vs) ?w2"
    by (simp add: returning_def f_write_def)
  have "files ?w2 p = Some (c @ or_empty v @ [newline])" by simp
  moreover from Cons.prems have "writes_ok e (c @ or_empty v @ [newline]) vs" by simp
  ultimately have ih: "page_loop e p (returning vs) ?w2 =
     (None, ?w2\<lparr>files := (files ?w2)(p \<mapsto> (c @ or_empty v @ [newline]) @ rendered vs),
                log := log ?w2 @ page_writes p vs\<rparr>)"
    by (rule Cons.IH)
  have eq: "?w2\<lparr>files := (files ?w2)(p \<mapsto> (c @ or_empty v @ [newline]) @ rendered vs),
                log := log ?w2 @ page_writes p vs\<rparr> =
            w\<lparr>files := (files w)(p \<mapsto> c @ rendered (v # vs)),
              log := log w @ page_writes p (v # vs)\<rparr>"
    by (simp add: rendered_Cons page_writes_Cons)
  show ?case
    by (simp only: step ih eq)
qed

lemma page_loop_append:
  "page_loop e p (xs @ ys) w =
     (case page_loop e p xs w of
        (None, w1) \<Rightarrow> page_loop e p ys w1
      | (Some x, w1) \<Rightarrow> (Some x, w1))"
  by (induction xs arbitrary: w) (simp_all split: extract_result.splits sum.splits)

lemma f_write_frame:
  "f_write e p s w = Inr w1 \<Longrightarrow>
   handles w1 = handles w \<and> stdout w1 = stdout w \<and> (\<forall>q. q \<noteq> p \<longrightarrow> files w1 q = files w q)
   \<and> files w1 p \<noteq> None"
  by (auto simp: f_write_def split: option.splits if_splits)

lemma page_loop_frame:
  "page_loop e p pgs w = (r, w1) \<Longrightarrow>
   handles w1 = handles w \<and> stdout w1 = stdout w \<and> (\<forall>q. q \<noteq> p \<longrightarrow> files w1 q = files w q)"
proof (induction pgs arbitrary: w)
  case Nil
  then show ?case by simp
next
  case (Cons pg pgs)
  then show ?case
    by (auto split: extract_result.splits sum.splits dest!: f_write_frame)
qed

lemma with_open_returning:
  assumes "open_w_ok e p" and "writes_ok e [] vs"
  shows "with_open e p (returning vs) w =
     (None, w\<lparr>files := (files w)(p \<mapsto> rendered vs),
               log := log w @ Open p # page_writes p vs @ [Close p]\<rparr>)"
proof -
  let ?w1 = "w\<lparr>files := (files w)(p \<mapsto> []), handles := p # handles w, log := log w @ [Open p]\<rparr>"
  have "files ?w1 p = Some []" by simp
  then have "page_loop e p (returning vs) ?w1 =
     (None, ?w1\<lparr>files := (files ?w1)(p \<mapsto> [] @ rendered vs), log := log ?w1 @ page_writes p vs\<rparr>)"
    using assms(2) by (rule page_loop_returning)
  with assms(1) show ?thesis
    by (simp add: with_open_def open_w_def f_close_def)
qed

lemma script_returning:
  assumes "ensure_pkg e = Inr ()" and "PdfReader e input_path w = Some (returning vs)"
    and "open_w_ok e output_path" and "writes_ok e [] vs"
  shows "script e w =
     (None, w\<lparr>files := (files w)(output_path \<mapsto> rendered vs),
               stdout := stdout w @ ''OK'' @ [newline],
               log := log w @ Open output_path # page_writes output_path vs @ [Close output_path]\<rparr>)"
  using assms by (simp add: script_def with_open_returning print_line_def)


text \<open>The loop sees of the world only the file it writes to.\<close>

lemma page_loop_same_file:
  "files w1 p = files w2 p \<Longrightarrow>
   fst (page_loop e p pgs w1) = fst (page_loop e p pgs w2)
   \<and> files (snd (page_loop e p pgs w1)) p = files (snd (page_loop e p pgs w2)) p"
proof (induction pgs arbitrary: w1 w2)
  case Nil
  then show ?case by simp
next
  case (Cons pg pgs)
  show ?case
  proof (cases "extract_text pg")
    case Raises
    with Cons.prems show ?thesis by simp
  next
    case (Returns v)
    show ?thesis
    proof (cases "f_write e p (or_empty v) w1")
      case (Inl x)
      with Cons.prems have "f_write e p (or_empty v) w2 = Inl x"
        by (auto simp: f_write_def split: option.splits if_splits)
      with Inl Returns Cons.prems show ?thesis by simp
    next
      case (Inr wa)
      with Cons.prems obtain wa' where a': "f_write e p (or_empty v) w2 = Inr wa'"
        and fa: "files wa p = files wa' p"
        by (auto simp: f_write_def split: option.splits if_splits)
      show ?thesis
      proof (cases "f_write e p [newline] wa")
        case (Inl x)
        with fa have "f_write e p [newline] wa' = Inl x"
          by (auto simp: f_write_def split: option.splits if_splits)
        with Inl Inr a' fa Returns show ?thesis by simp
      next
        case b: (Inr wb)
        with fa obtain wb' where b': "f_write e p [newline] wa' = Inr wb'"
          and fb: "files wb p = files wb' p"
          by (auto simp: f_write_def split: option.splits if_splits)
        from Cons.IH [OF fb] Returns Inr a' b b' show ?thesis by simp
      qed
    qed
  qed
qed


lemma count_newline_rendered:
  "count_list (rendered vs) newline =
     length vs + sum_list (map (\<lambda>v. count_list (or_empty v) newline) vs)"
  by (induction vs) (simp_all add: rendered_Nil rendered_Cons)

lemma with_open_frame:
  assumes "with_open e p pgs w = (r, w1)"
  shows "handles w1 = handles w \<and> stdout w1 = stdout w
         \<and> (\<forall>q. q \<noteq> p \<longrightarrow> files w1 q = files w q)"
proof (cases "open_w_ok e p")
  case False
  with assms show ?thesis by (simp add: with_open_def open_w_def)
next
  case True
  let ?w0 = "w\<lparr>files := (files w)(p \<mapsto> []), handles := p # handles w, log := log w @ [Open p]\<rparr>"
  obtain r' w2 where l: "page_loop e p pgs ?w0 = (r', w2)" by (cases "page_loop e p pgs ?w0")
  from page_loop_frame [OF l]
  have "handles w2 = p # handles w" "stdout w2 = stdout w"
    "\<forall>q. q \<noteq> p \<longrightarrow> files w2 q = files w q" by simp_all
  moreover from assms True l have "w1 = f_close p w2"
    by (simp add: with_open_def open_w_def)
  ultimately show ?thesis by (simp add: f_close_def)
qed

lemma script_frame:
  "handles (snd (script e w)) = handles w
   \<and> (\<forall>q. q \<noteq> output_path \<longrightarrow> files (snd (script e w)) q = files w q)
   \<and> stdout (snd (script e w)) =
       (if fst (script e w) = None then stdout w @ ''OK'' @ [newline] else stdout w)"
proof (cases "ensure_pkg e")
  case (Inl x)
  then show ?thesis by (simp add: script_def)
next
  case (Inr u)
  show ?thesis
  proof (cases "PdfReader e input_path w")
    case None
    with Inr show ?thesis by (simp add: script_def)
  next
    case (Some pgs)
    obtain r w1 where wo: "with_open e output_path pgs w = (r, w1)"
      by (cases "with_open e output_path pgs w")
    from with_open_frame [OF wo] Inr Some wo show ?thesis
      by (cases r) (simp_all add: script_def print_line_def)
  qed
qed


lemma page_writes_append: "page_writes p (us @ vs) = page_writes p us @ page_writes p vs"
  by (simp add: page_writes_def)

lemma rendered_strict_prefix: "strict_prefix (rendered vs) (rendered (vs @ v # us))"
  by (simp add: rendered_append rendered_Cons strict_prefix_def)

lemma split_nl_line: "newline \<notin> set s \<Longrightarrow> split_nl (s @ newline # t) = s # split_nl t"
  by (induction s) auto

lemma split_nl_rendered:
  "\<forall>v\<in>set vs. newline \<notin> set (or_empty v) \<Longrightarrow>
   split_nl (rendered vs) = map or_empty vs @ [[]]"
  by (induction vs) (simp_all add: rendered_Nil rendered_Cons split_nl_line)

lemma read_lines_rendered:
  "\<forall>v\<in>set vs. newline \<notin> set (or_empty v) \<Longrightarrow> read_lines (rendered vs) = map or_empty vs"
  by (simp add: read_lines_def split_nl_rendered)

text \<open>A run that does not get to open the output file changes nothing.\<close>

lemma script_early:
  "ensure_pkg e \<noteq> Inr () \<or> PdfReader e input_path w = None \<or> \<not> open_w_ok e output_path \<Longrightarrow>
   snd (script e w) = w"
  by (cases "ensure_pkg e"; cases "PdfReader e input_path w")
     (auto simp: script_def with_open_def open_w_def)

text \<open>A run that opens the output file is the loop on the truncated file, then the close.\<close>

lemma script_opened:
  assumes "ensure_pkg e = Inr ()" and "PdfReader e input_path w = Some pgs"
    and "open_w_ok e output_path"
    and "page_loop e output_path pgs
           (w\<lparr>files := (files w)(output_path \<mapsto> []), handles := output_path # handles w,
              log := log w @ [Open output_path]\<rparr>) = (r, w2)"
  shows "fst (script e w) = r \<and> files (snd (script e w)) output_path = files w2 output_path
         \<and> log (snd (script e w)) = log w2 @ [Close output_path]"
  using assms
  by (cases r) (simp_all add: script_def with_open_def open_w_def f_close_def print_line_def)

lemma PdfReader_same_file:
  "files w1 p = files w2 p \<Longrightarrow> PdfReader e p w1 = PdfReader e p w2"
  by (simp add: PdfReader_def)

lemma script_same_input:
  assumes "files w1 input_path = files w2 input_path"
    and "ensure_pkg e = Inr ()" and "PdfReader e input_path w1 \<noteq> None"
    and "open_w_ok e output_path"
  shows "fst (script e w1) = fst (script e w2)
         \<and> files (snd (script e w1)) output_path = files (snd (script e w2)) output_path"
proof -
  from assms(3) obtain pgs where p1: "PdfReader e input_path w1 = Some pgs" by blast
  with assms(1) have p2: "PdfReader e input_path w2 = Some pgs"
    by (simp add: PdfReader_same_file [of w2 input_path w1])
  let ?o1 = "w1\<lparr>files := (files w1)(output_path \<mapsto> []), handles := output_path # handles w1,
                 log := log w1 @ [Open output_path]\<rparr>"
  let ?o2 = "w2\<lparr>files := (files w2)(output_path \<mapsto> []), handles := output_path # handles w2,
                 log := log w2 @ [Open output_path]\<rparr>"
  have "files ?o1 output_path = files ?o2 output_path" by simp
  from page_loop_same_file [OF this]
  have same: "fst (page_loop e output_path pgs ?o1) = fst (page_loop e output_path pgs ?o2)"
    "files (snd (page_loop e output_path pgs ?o1)) output_path
       = files (snd (page_loop e output_path pgs ?o2)) output_path"
    by blast+
  have "page_loop e output_path pgs ?o1 =
          (fst (page_loop e output_path pgs ?o1), snd (page_loop e output_path pgs ?o1))"
    by simp
  from script_opened [OF assms(2) p1 assms(4) this]
  have r1: "fst (script e w1) = fst (page_loop e output_path pgs ?o1)"
    "files (snd (script e w1)) output_path = files (snd (page_loop e output_path pgs ?o1)) output_path"
    by blast+
  have "page_loop e output_path pgs ?o2 =
          (fst (page_loop e output_path pgs ?o2), snd (page_loop e output_path pgs ?o2))"
    by simp
  from script_opened [OF assms(2) p2 assms(4) this]
  have r2: "fst (script e w2) = fst (page_loop e output_path pgs ?o2)"
    "files (snd (script e w2)) output_path = files (snd (page_loop e output_path pgs ?o2)) output_path"
    by blast+
  from same r1 r2 show ?thesis by simp
qed

section \<open>Properties of the run\<close>

text \<open>
  Claim C1. When the document opens with \<open>N\<close> pages, each returning a value, and the
  output can be opened and written, the run makes on the output file exactly the calls
  open, then for each page in order one write of its text and one write of a newline,
  then close: \<open>2 * N\<close> writes, \<open>N\<close> lines. The file then holds the \<open>N\<close> lines, and
  the newline characters in it are these \<open>N\<close> and those inside the texts.
\<close>

theorem line_per_page:
  assumes "ensure_pkg e = Inr ()"
    and "PdfReader e input_path w = Some (returning vs)"
    and "open_w_ok e output_path"
    and "writes_ok e [] vs"
  shows "log (snd (script e w)) =
           log w @ Open output_path # page_writes output_path vs @ [Close output_path]
         \<and> length (page_writes output_path vs) = 2 * length vs
         \<and> files (snd (script e w)) output_path = Some (rendered vs)
         \<and> count_list (rendered vs) newline =
             length vs + sum_list (map (\<lambda>v. count_list (or_empty v) newline) vs)"
  using assms by (simp add: script_returning length_page_writes count_newline_rendered)

theorem line_per_page_witness:
  "PdfReader (doc_env (returning hello_world)) input_path start = Some (returning hello_world)
   \<and> log (snd (script (doc_env (returning hello_world)) start)) =
       [Open output_path,
        Write output_path ''Hello'', Write output_path [newline],
        Write output_path [], Write output_path [newline],
        Write output_path ''World'', Write output_path [newline],
        Close output_path]
   \<and> files (snd (script (doc_env (returning hello_world)) start)) output_path =
       Some (''Hello'' @ [newline, newline] @ ''World'' @ [newline])
   \<and> count_list (''Hello'' @ [newline, newline] @ ''World'' @ [newline]) newline = 3"
  using line_per_page [of "doc_env (returning hello_world)" start hello_world]
  by (simp add: doc_env_def start_def hello_world_def ensure_pkg_def PdfReader_def
      input_path_def output_path_def rendered_def page_writes_def newline_def)

text \<open>
  Claim C2, amended. In such a run the output file is the concatenation, in page order,
  of each page's text followed by a newline. When no page's text contains a newline
  character, cutting the file at the newline characters gives the texts of the pages in
  order (and an empty piece after the last newline), so that piece \<open>i\<close> is the text of
  page \<open>i\<close>. As stated, for every document, the claim fails: a text with a newline inside
  is cut in two.
\<close>

theorem line_is_page_text:
  assumes "ensure_pkg e = Inr ()"
    and "PdfReader e input_path w = Some (returning vs)"
    and "open_w_ok e output_path"
    and "writes_ok e [] vs"
  shows "files (snd (script e w)) output_path = Some (rendered vs)
         \<and> ((\<forall>v\<in>set vs. newline \<notin> set (or_empty v)) \<longrightarrow>
              split_nl (rendered vs) = map or_empty vs @ [[]]
              \<and> (\<forall>i<length vs. split_nl (rendered vs) ! i = or_empty (vs ! i)))"
proof -
  from assms have "files (snd (script e w)) output_path = Some (rendered vs)"
    by (simp add: script_returning)
  moreover have "split_nl (rendered vs) = map or_empty vs @ [[]]
      \<and> (\<forall>i<length vs. split_nl (rendered vs) ! i = or_empty (vs ! i))"
    if "\<forall>v\<in>set vs. newline \<notin> set (or_empty v)"
    using that by (simp add: split_nl_rendered nth_append)
  ultimately show ?thesis by blast
qed

theorem line_is_page_text_witness:
  "PdfReader (doc_env (returning hello_world)) input_path start = Some (returning hello_world)
   \<and> split_nl (''Hello'' @ [newline, newline] @ ''World'' @ [newline])
       = [''Hello'', [], ''World'', []]
   \<and> files (snd (script (doc_env (returning hello_world)) start)) output_path =
       Some (''Hello'' @ [newline, newline] @ ''World'' @ [newline])"
  using line_is_page_text [of "doc_env (returning hello_world)" start hello_world]
  by (simp add: doc_env_def start_def hello_world_def ensure_pkg_def PdfReader_def
      input_path_def rendered_def newline_def)

theorem line_is_page_text_counterexample:
  "ensure_pkg (doc_env (returning two_lines_one_page)) = Inr ()
   \<and> PdfReader (doc_env (returning two_lines_one_page)) input_path start
       = Some (returning two_lines_one_page)
   \<and> fst (script (doc_env (returning two_lines_one_page)) start) = None
   \<and> files (snd (script (doc_env (returning two_lines_one_page)) start)) output_path
       = Some (''a'' @ [newline] @ ''b'' @ [newline])
   \<and> split_nl (''a'' @ [newline] @ ''b'' @ [newline]) ! 0 = ''a''
   \<and> or_empty (two_lines_one_page ! 0) = ''a'' @ [newline] @ ''b''
   \<and> split_nl (''a'' @ [newline] @ ''b'' @ [newline]) ! 0 \<noteq> or_empty (two_lines_one_page ! 0)"
  by (simp add: script_def with_open_def open_w_def f_close_def f_write_def print_line_def
      doc_env_def start_def two_lines_one_page_def ensure_pkg_def PdfReader_def returning_def
      input_path_def output_path_def newline_def)

text \<open>
  Claim C3. A page whose extraction returns \<^verbatim>\<open>None\<close> or the empty string is written as
  an empty text and a newline, between the lines of the pages before it and those of the
  pages after it: the run does not fail and no line is missing.
\<close>

theorem no_text_page:
  assumes "ensure_pkg e = Inr ()"
    and "PdfReader e input_path w = Some (returning vs)"
    and "open_w_ok e output_path"
    and "writes_ok e [] vs"
    and "i < length vs"
    and "vs ! i = PyNone \<or> vs ! i = PyStr []"
  shows "fst (script e w) = None
         \<and> files (snd (script e w)) output_path =
             Some (rendered (take i vs) @ [newline] @ rendered (drop (Suc i) vs))
         \<and> log (snd (script e w)) =
             log w @ Open output_path # page_writes output_path (take i vs)
               @ [Write output_path [], Write output_path [newline]]
               @ page_writes output_path (drop (Suc i) vs) @ [Close output_path]"
proof -
  from assms(6) have none: "or_empty (vs ! i) = []" by auto
  note split = id_take_nth_drop [OF assms(5)]
  have "rendered vs = rendered (take i vs @ vs ! i # drop (Suc i) vs)"
    by (rule arg_cong [OF split])
  with none have r: "rendered vs = rendered (take i vs) @ [newline] @ rendered (drop (Suc i) vs)"
    by (simp add: rendered_append rendered_Cons)
  have "page_writes output_path vs =
          page_writes output_path (take i vs @ vs ! i # drop (Suc i) vs)"
    by (rule arg_cong [OF split])
  with none have p: "page_writes output_path vs =
      page_writes output_path (take i vs)
        @ [Write output_path [], Write output_path [newline]]
        @ page_writes output_path (drop (Suc i) vs)"
    by (simp add: page_writes_append page_writes_Cons)
  from assms(1-4) have "script e w =
     (None, w\<lparr>files := (files w)(output_path \<mapsto> rendered vs),
               stdout := stdout w @ ''OK'' @ [newline],
               log := log w @ Open output_path # page_writes output_path vs @ [Close output_path]\<rparr>)"
    by (rule script_returning)
  then show ?thesis by (simp add: r p)
qed

theorem no_text_page_witness:
  "[PyStr ''x'', PyNone, PyStr [], PyStr ''y''] ! 1 = PyNone
   \<and> fst (script (doc_env (returning [PyStr ''x'', PyNone, PyStr [], PyStr ''y''])) start) = None
   \<and> files (snd (script (doc_env (returning [PyStr ''x'', PyNone, PyStr [], PyStr ''y''])) start))
       output_path = Some (''x'' @ [newline] @ [newline] @ [newline] @ ''y'' @ [newline])"
  using no_text_page [of "doc_env (returning [PyStr ''x'', PyNone, PyStr [], PyStr ''y''])" start
      "[PyStr ''x'', PyNone, PyStr [], PyStr ''y'']" 1]
  by (simp add: doc_env_def start_def ensure_pkg_def PdfReader_def input_path_def rendered_def)

text \<open>
  Claim C4. When \<^verbatim>\<open>PdfReader('ro.pdf')\<close> raises (no file at the path, or a file the
  library cannot read), the run ends with that exception and a status that is not 0, and
  the world is as it was: no file is created or written, no call on a file is made,
  nothing is printed.
\<close>

theorem reader_failure:
  assumes "PdfReader e input_path w = None"
  shows "snd (script e w) = w
         \<and> fst (script e w) \<noteq> None
         \<and> exit_status (fst (script e w)) \<noteq> 0
         \<and> (ensure_pkg e = Inr () \<longrightarrow> fst (script e w) = Some ReaderError)"
  using assms by (cases "ensure_pkg e") (simp_all add: script_def exit_status_def)

theorem reader_failure_witness:
  "files empty_dir input_path = None
   \<and> files (snd (script (doc_env []) empty_dir)) output_path = None
   \<and> log (snd (script (doc_env []) empty_dir)) = []
   \<and> fst (script (doc_env []) empty_dir) = Some ReaderError
   \<and> exit_status (fst (script (doc_env []) empty_dir)) = 1
   \<and> files start input_path = Some ''%PDF-1.4''
   \<and> files (snd (script bad_pdf_env start)) output_path = Some ''stale''
   \<and> fst (script bad_pdf_env start) = Some ReaderError"
  using reader_failure [of "doc_env []" empty_dir] reader_failure [of bad_pdf_env start]
  by (simp add: doc_env_def bad_pdf_env_def empty_dir_def start_def ensure_pkg_def PdfReader_def
      input_path_def output_path_def exit_status_def)

text \<open>
  Claim C5, amended. When every page returns a string that is not empty and contains no
  newline character, the lines read back from the output file are the strings the pages
  returned, in order. As stated, for every document of non-empty texts, the claim fails:
  a page of two lines and two pages of one line give the same file, so that the texts of
  the pages cannot be told from it.
\<close>

theorem round_trip:
  assumes "ensure_pkg e = Inr ()"
    and "PdfReader e input_path w = Some (returning vs)"
    and "open_w_ok e output_path"
    and "writes_ok e [] vs"
    and "\<forall>v\<in>set vs. \<exists>s. v = PyStr s \<and> s \<noteq> [] \<and> newline \<notin> set s"
  shows "\<exists>out. files (snd (script e w)) output_path = Some out
           \<and> map PyStr (read_lines out) = vs"
proof -
  from assms(1-4) have "files (snd (script e w)) output_path = Some (rendered vs)"
    by (simp add: script_returning)
  moreover from assms(5) have "\<forall>v\<in>set vs. newline \<notin> set (or_empty v)"
    by auto
  then have "read_lines (rendered vs) = map or_empty vs"
    by (rule read_lines_rendered)
  moreover from assms(5) have "map PyStr (map or_empty vs) = vs"
    by (induction vs) auto
  ultimately show ?thesis by simp
qed

theorem round_trip_witness:
  "PdfReader (doc_env (returning two_pages)) input_path start = Some (returning two_pages)
   \<and> (\<exists>out. files (snd (script (doc_env (returning two_pages)) start)) output_path = Some out
        \<and> map PyStr (read_lines out) = [PyStr ''a'', PyStr ''b''])"
  using round_trip [of "doc_env (returning two_pages)" start two_pages]
  by (simp add: doc_env_def start_def two_pages_def ensure_pkg_def PdfReader_def
      input_path_def newline_def)

theorem round_trip_counterexample:
  "list_all truthy two_lines_one_page \<and> list_all truthy two_pages
   \<and> two_lines_one_page \<noteq> two_pages
   \<and> fst (script (doc_env (returning two_lines_one_page)) start) = None
   \<and> fst (script (doc_env (returning two_pages)) start) = None
   \<and> files (snd (script (doc_env (returning two_lines_one_page)) start)) output_path
       = Some (''a'' @ [newline] @ ''b'' @ [newline])
   \<and> files (snd (script (doc_env (returning two_pages)) start)) output_path
       = Some (''a'' @ [newline] @ ''b'' @ [newline])
   \<and> map PyStr (read_lines (''a'' @ [newline] @ ''b'' @ [newline])) \<noteq> two_lines_one_page"
  by (simp add: script_def with_open_def open_w_def f_close_def f_write_def print_line_def
      doc_env_def start_def two_lines_one_page_def two_pages_def ensure_pkg_def PdfReader_def
      returning_def read_lines_def input_path_def output_path_def newline_def)

text \<open>
  Claim C6. Running the script again on the world the first run left gives the same
  outcome and the same output file. A run that opens the output file leaves in it a
  content that depends on the input file and the environment only: from two worlds
  with the same input file, whatever the output file held, the outcome and the output
  file are the same.
\<close>

theorem rerun_same_output:
  "fst (script e (snd (script e w))) = fst (script e w)
   \<and> files (snd (script e (snd (script e w)))) output_path
       = files (snd (script e w)) output_path
   \<and> (files w1 input_path = files w2 input_path \<longrightarrow> ensure_pkg e = Inr () \<longrightarrow>
        PdfReader e input_path w1 \<noteq> None \<longrightarrow> open_w_ok e output_path \<longrightarrow>
          fst (script e w1) = fst (script e w2)
          \<and> files (snd (script e w1)) output_path = files (snd (script e w2)) output_path)"
proof -
  have again: "fst (script e (snd (script e w))) = fst (script e w)
      \<and> files (snd (script e (snd (script e w)))) output_path
          = files (snd (script e w)) output_path"
  proof (cases "ensure_pkg e \<noteq> Inr () \<or> PdfReader e input_path w = None
      \<or> \<not> open_w_ok e output_path")
    case True
    then have "snd (script e w) = w" by (rule script_early)
    then show ?thesis by simp
  next
    case False
    from script_frame [of e w] paths_distinct
    have "files w input_path = files (snd (script e w)) input_path" by simp
    from script_same_input [OF this] False show ?thesis by simp
  qed
  from again script_same_input [of w1 w2 e] show ?thesis by blast
qed

theorem rerun_same_output_witness:
  "files start input_path = files start_other input_path
   \<and> files start output_path \<noteq> files start_other output_path
   \<and> PdfReader (doc_env (returning hello_world)) input_path start \<noteq> None
   \<and> fst (script (doc_env (returning hello_world)) start)
       = fst (script (doc_env (returning hello_world)) start_other)
   \<and> files (snd (script (doc_env (returning hello_world)) start)) output_path
       = files (snd (script (doc_env (returning hello_world)) start_other)) output_path"
  using rerun_same_output [of "doc_env (returning hello_world)" start start start_other]
  by (simp add: doc_env_def start_def start_other_def ensure_pkg_def PdfReader_def
      input_path_def output_path_def)





text \<open>
  Claim C9. A document with no page: the run succeeds, the output file is created, or
  truncated, and left empty, \<^verbatim>\<open>OK\<close> is printed.
\<close>

theorem zero_pages:
  assumes "ensure_pkg e = Inr ()"
    and "PdfReader e input_path w = Some []"
    and "open_w_ok e output_path"
  shows "fst (script e w) = None
         \<and> exit_status (fst (script e w)) = 0
         \<and> files (snd (script e w)) output_path = Some []
         \<and> stdout (snd (script e w)) = stdout w @ ''OK'' @ [newline]
         \<and> log (snd (script e w)) = log w @ [Open output_path, Close output_path]"
proof -
  from assms(2) have "PdfReader e input_path w = Some (returning [])"
    by (simp add: returning_def)
  moreover have "writes_ok e [] []" by simp
  ultimately have "script e w =
     (None, w\<lparr>files := (files w)(output_path \<mapsto> rendered []),
               stdout := stdout w @ ''OK'' @ [newline],
               log := log w @ Open output_path # page_writes output_path [] @ [Close output_path]\<rparr>)"
    using assms(1,3) by (simp only: script_returning)
  then show ?thesis
    by (simp add: rendered_Nil page_writes_Nil exit_status_def)
qed

theorem zero_pages_witness:
  "PdfReader (doc_env []) input_path start = Some []
   \<and> files start output_path = Some ''stale''
   \<and> fst (script (doc_env []) start) = None
   \<and> files (snd (script (doc_env []) start)) output_path = Some []
   \<and> stdout (snd (script (doc_env []) start)) = ''OK'' @ [newline]"
  using zero_pages [of "doc_env []" start]
  by (simp add: doc_env_def start_def ensure_pkg_def PdfReader_def input_path_def output_path_def)

text \<open>
  Claim C10. When the extraction raises on page \<open>i\<close>, the pages before it having been
  written: the run ends with that exception, nothing is printed, the handle is closed,
  and the output file holds the lines of pages \<open>0\<close> to \<open>i - 1\<close> and nothing else, a
  strict prefix of what any completed run over these first pages would have written.
\<close>

theorem extraction_raises:
  assumes "ensure_pkg e = Inr ()"
    and "PdfReader e input_path w = Some (returning vs @ Page Raises # rest)"
    and "open_w_ok e output_path"
    and "writes_ok e [] vs"
  shows "fst (script e w) = Some ExtractError
         \<and> exit_status (fst (script e w)) \<noteq> 0
         \<and> stdout (snd (script e w)) = stdout w
         \<and> handles (snd (script e w)) = handles w
         \<and> files (snd (script e w)) output_path = Some (rendered vs)
         \<and> log (snd (script e w)) =
             log w @ Open output_path # page_writes output_path vs @ [Close output_path]
         \<and> strict_prefix (rendered vs) (rendered (vs @ v # us))"
proof -
  let ?w0 = "w\<lparr>files := (files w)(output_path \<mapsto> []), handles := output_path # handles w,
                log := log w @ [Open output_path]\<rparr>"
  have "files ?w0 output_path = Some []" by simp
  then have "page_loop e output_path (returning vs) ?w0 =
     (None, ?w0\<lparr>files := (files ?w0)(output_path \<mapsto> [] @ rendered vs),
                log := log ?w0 @ page_writes output_path vs\<rparr>)"
    using assms(4) by (rule page_loop_returning)
  then have "page_loop e output_path (returning vs @ Page Raises # rest) ?w0 =
     (Some ExtractError, ?w0\<lparr>files := (files ?w0)(output_path \<mapsto> [] @ rendered vs),
                log := log ?w0 @ page_writes output_path vs\<rparr>)"
    by (simp add: page_loop_append)
  with assms(1,2,3) have "script e w =
     (Some ExtractError, w\<lparr>files := (files w)(output_path \<mapsto> rendered vs),
                log := log w @ Open output_path # page_writes output_path vs @ [Close output_path]\<rparr>)"
    by (simp add: script_def with_open_def open_w_def f_close_def)
  then show ?thesis
    by (simp add: exit_status_def rendered_strict_prefix)
qed

theorem extraction_raises_witness:
  "PdfReader (doc_env (returning hello_world @ Page Raises # [Page (Returns PyNone)])) input_path start
     = Some (returning hello_world @ Page Raises # [Page (Returns PyNone)])
   \<and> fst (script (doc_env (returning hello_world @ Page Raises # [Page (Returns PyNone)])) start)
       = Some ExtractError
   \<and> stdout (snd (script (doc_env (returning hello_world @ Page Raises # [Page (Returns PyNone)])) start))
       = []
   \<and> handles (snd (script (doc_env (returning hello_world @ Page Raises # [Page (Returns PyNone)])) start))
       = []
   \<and> files (snd (script (doc_env (returning hello_world @ Page Raises # [Page (Returns PyNone)])) start))
       output_path = Some (''Hello'' @ [newline, newline] @ ''World'' @ [newline])"
  using extraction_raises [of "doc_env (returning hello_world @ Page Raises # [Page (Returns PyNone)])"
      start hello_world "[Page (Returns PyNone)]"]
  by (simp add: doc_env_def start_def hello_world_def ensure_pkg_def PdfReader_def
      input_path_def rendered_def)

end
